theory Spec2Isabelle
  imports Main "HOL-Library.Char_ord"
begin

section \<open>InAppBrowser.tsx: the browser availability gate\<close>

text \<open>
  The component \<open>InAppBrowserView\<close> keeps three \<open>useState\<close> cells. Its body calls
  \<open>InAppBrowser.isAvailable()\<close> and registers two promise callbacks; the view shows the
  placeholder text, a text input bound to \<open>url\<close>, and a \<open>Pressable\<close> whose
  \<open>disabled\<close> prop is \<open>!shouldOpenBrowser\<close>.
\<close>

record browser_state =
  browserPlaceholderText :: string
  shouldOpenBrowser :: bool
  url :: string

text \<open>The values of the options object literal: strings, booleans and nested objects.\<close>

datatype opt_value = Str string | Bool bool | Obj "(string \<times> opt_value) list"

definition opts :: "(string \<times> opt_value) list" where
  "opts =
    [(''dismissButtonStyle'', Str ''cancel''),
     (''preferredBarTintColor'', Str ''#453AA4''),
     (''preferredControlTintColor'', Str ''white''),
     (''readerMode'', Bool False),
     (''animated'', Bool True),
     (''modalPresentationStyle'', Str ''fullScreen''),
     (''modalTransitionStyle'', Str ''coverVertical''),
     (''modalEnabled'', Bool True),
     (''enableBarCollapsing'', Bool False),
     (''showTitle'', Bool True),
     (''toolbarColor'', Str ''#6200EE''),
     (''secondaryToolbarColor'', Str ''black''),
     (''navigationBarColor'', Str ''black''),
     (''navigationBarDividerColor'', Str ''white''),
     (''enableUrlBarHiding'', Bool True),
     (''enableDefaultShare'', Bool True),
     (''forceCloseOnRedirection'', Bool False),
     (''animations'', Obj
        [(''startEnter'', Str ''slide_in_right''),
         (''startExit'', Str ''slide_out_left''),
         (''endEnter'', Str ''slide_in_left''),
         (''endExit'', Str ''slide_out_right'')]),
     (''headers'', Obj [(''my-custom-header'', Str ''my custom header value'')])]"

text \<open>Calls into the \<open>InAppBrowser\<close> library made by the component.\<close>

datatype browser_effect =
    IsAvailable
  | Open string "(string \<times> opt_value) list"

text \<open>What the returned element tree shows.\<close>

record browser_view =
  text_label :: string
  input_value :: string
  pressable_disabled :: bool

text \<open>The \<open>useState\<close> initial values.\<close>

definition browser_initial :: browser_state where
  "browser_initial =
     \<lparr>browserPlaceholderText = ''Checking browser availability'',
      shouldOpenBrowser = False,
      url = ''https://home.metamask.io/''\<rparr>"

text \<open>
  One evaluation of the component function: the call of \<open>isAvailable\<close> sits in the
  function body (not in an effect hook), so every evaluation issues it; the second
  component is the rendered view.
\<close>

definition InAppBrowserView :: "browser_state \<Rightarrow> browser_effect list \<times> browser_view" where
  "InAppBrowserView st =
     ([IsAvailable],
      \<lparr>text_label = browserPlaceholderText st,
       input_value = url st,
       pressable_disabled = (\<not> shouldOpenBrowser st)\<rparr>)"

text \<open>
  What can happen to a mounted component: the promise of \<open>isAvailable\<close> is fulfilled
  (first callback of \<open>then\<close>) or rejected (second callback), the text input reports a
  change, or the pressable is pressed.
\<close>

datatype browser_event = ProbeFulfilled | ProbeRejected | ChangeText string | Press

definition handleOpenBrowserButtonPress :: "browser_state \<Rightarrow> browser_effect list" where
  "handleOpenBrowserButtonPress st = [Open (url st) opts]"

text \<open>
  A step returns the new state and the library calls made by the handler. A disabled
  \<open>Pressable\<close> does not call \<open>onPress\<close>.
\<close>

fun browser_step :: "browser_event \<Rightarrow> browser_state \<Rightarrow> browser_state \<times> browser_effect list" where
  "browser_step ProbeFulfilled st =
     (st\<lparr>browserPlaceholderText := ''Browser available'', shouldOpenBrowser := True\<rparr>, [])"
| "browser_step ProbeRejected st =
     (st\<lparr>browserPlaceholderText := ''Browser not Available''\<rparr>, [])"
| "browser_step (ChangeText s) st = (st\<lparr>url := s\<rparr>, [])"
| "browser_step Press st =
     (st, if pressable_disabled (snd (InAppBrowserView st)) then []
          else handleOpenBrowserButtonPress st)"

text \<open>A sequence of events, oldest first, with the calls accumulated in order.\<close>

fun browser_run :: "browser_event list \<Rightarrow> browser_state \<Rightarrow> browser_state \<times> browser_effect list" where
  "browser_run [] st = (st, [])"
| "browser_run (e # es) st =
     (case browser_step e st of
        (st1, fx1) \<Rightarrow> (case browser_run es st1 of (st2, fx2) \<Rightarrow> (st2, fx1 @ fx2)))"

text \<open>
  A state setter called with a new value makes the framework evaluate the component
  function again. \<open>browser_mounted\<close> lists all library calls of a mounted component:
  those of the first evaluation, then for each event those of its handler and, when the
  state has changed, those of the evaluation that follows.
\<close>

fun browser_session :: "browser_event list \<Rightarrow> browser_state \<Rightarrow> browser_effect list" where
  "browser_session [] st = []"
| "browser_session (e # es) st =
     (case browser_step e st of
        (st1, fx) \<Rightarrow>
          fx @ (if st1 \<noteq> st then fst (InAppBrowserView st1) else []) @ browser_session es st1)"

definition browser_mounted :: "browser_event list \<Rightarrow> browser_effect list" where
  "browser_mounted es = fst (InAppBrowserView browser_initial) @ browser_session es browser_initial"

section \<open>AccountPermissions.tsx: data\<close>

text \<open>
  Modelled from the spec: the enum \<open>AccountPermissionsScreens\<close> is declared in
  \<open>AccountPermissions.types\<close>, which is not among the sources; its six members are the
  ones the spec lists and the switch of \<open>renderPermissionsScreens\<close> names.
\<close>

datatype AccountPermissionsScreens =
    Connected
  | ConnectMoreAccounts
  | EditAccountsPermissions
  | ConnectMoreNetworks
  | Revoke
  | PermissionsSummary

text \<open>
  Modelled from the spec: the enum \<open>USER_INTENT\<close> is declared in
  \<open>constants/permissions\<close>, which is not among the sources; its members are the seven
  the spec lists (\<open>USER_INTENT.None\<close> is written \<open>USER_INTENT_None\<close>, and so on).
\<close>

datatype USER_INTENT =
    USER_INTENT_None
  | USER_INTENT_Confirm
  | USER_INTENT_Create
  | USER_INTENT_CreateMultiple
  | USER_INTENT_Cancel
  | USER_INTENT_Import
  | USER_INTENT_ConnectHW

text \<open>
  Modelled from the spec: the element types of \<open>accounts\<close> (hook \<open>useAccounts\<close>) and of
  \<open>internalAccounts\<close> (selector \<open>selectInternalAccounts\<close>) are declared outside the
  sources; the component reads only their \<open>address\<close> field.
\<close>

record Account =
  name :: string
  address :: string

record InternalAccount =
  id :: string
  address :: string

text \<open>A thrown JavaScript value.\<close>

datatype error = Error string

datatype AvatarAccountType = Blockies | JazzIcon

datatype ToastVariants = ToastVariants_Plain | ToastVariants_Account | ToastVariants_Network

text \<open>
  A toast label is a template: literal text, a number rendered by a template literal, or
  a lookup \<open>strings(key, params)\<close> in the translation table.
\<close>

datatype label_part = Lit string | Num nat | Strings string "(string \<times> string) list"

record ToastLabel =
  label :: "label_part list"
  isBold :: bool

record ToastOptions =
  variant :: ToastVariants
  labelOptions :: "ToastLabel list"
  hasNoTimeout :: bool
  toast_accountAddress :: "string option"
  toast_accountAvatarType :: "AvatarAccountType option"
  networkImageSource :: "string option"

datatype MetaMetricsEvents =
    ACCOUNTS_ADDED_NEW_ACCOUNT
  | SWITCHED_ACCOUNT
  | ADD_ACCOUNT_DAPP_PERMISSIONS
  | ACCOUNTS_IMPORTED_NEW_ACCOUNT
  | CONNECT_HARDWARE_WALLET

datatype param = PStr string | PNum nat

text \<open>
  The calls the component makes on its collaborators, in the order they are made. The
  callback handed to \<open>onCloseBottomSheet\<close> is recorded as the calls it makes when the
  sheet later runs it (\<open>None\<close> when \<open>hideSheet\<close> is called without one).
\<close>

datatype effect =
    AddNewAccount
  | AddPermittedAccounts string "string list"
  | TrackEvent MetaMetricsEvents "(string \<times> param) list"
  | LoggerError error string
  | ShowToast ToastOptions
  | OnCloseBottomSheet "effect list option"
  | Navigate string

text \<open>
  The component's own cells: the \<open>useState\<close> values, the two \<open>useRef\<close> values
  (\<open>undefined\<close> is \<open>None\<close>), and the log of calls made so far.
\<close>

record component =
  isLoading :: bool
  selectedAddresses :: "string list"
  permissionsScreen :: AccountPermissionsScreens
  userIntent :: USER_INTENT
  previousPermittedAccounts :: "nat option"
  previousIdentitiesListSize :: "nat option"
  effects :: "effect list"

text \<open>\<open>props.route.params\<close>; an absent optional parameter is \<open>None\<close>.\<close>

record route_params =
  origin :: string
  isRenderedAsBottomSheet_param :: "bool option"
  initialScreen_param :: "AccountPermissionsScreens option"

text \<open>
  What one render reads from its props, selectors, hooks and refs, together with the
  behaviour of the two throwing collaborators: \<open>addPermittedAccounts\<close> (core/Permissions)
  and \<open>getAccountNameWithENS\<close> (util/accounts) return a value or throw.
  \<open>sheetRef_current\<close> says whether \<open>sheetRef.current.onCloseBottomSheet\<close> exists and
  \<open>toastRef_current\<close> whether \<open>toastRef.current\<close> does; \<open>isMutichainVersion1Enabled\<close>
  is the constant of util/networks.
\<close>

record render_ctx =
  hostname :: string
  isRenderedAsBottomSheet :: bool
  permittedAccountsByHostname :: "string list"
  internalAccounts :: "InternalAccount list"
  accounts :: "Account list"
  accountsLength :: nat
  nonTestnetNetworks :: nat
  useBlockieIcon :: bool
  faviconSource :: string
  urlWithProtocol :: string
  sheetRef_current :: bool
  toastRef_current :: bool
  isMutichainVersion1Enabled :: bool
  addPermittedAccounts :: "string \<Rightarrow> string list \<Rightarrow> error + string"
  getAccountNameWithENS :: "string \<Rightarrow> Account list \<Rightarrow> error + string"

text \<open>
  \<open>String.prototype.toLowerCase\<close> on the ASCII range (addresses are hexadecimal
  strings): \<open>A\<close>..\<open>Z\<close> are mapped to \<open>a\<close>..\<open>z\<close>, every other character is kept.
\<close>

definition toLowerCase_char :: "char \<Rightarrow> char" where
  "toLowerCase_char ch =
     (let n = (of_char ch :: nat) in if 65 \<le> n \<and> n \<le> 90 then char_of (n + 32) else ch)"

definition toLowerCase :: "string \<Rightarrow> string" where
  "toLowerCase s = map toLowerCase_char s"

section \<open>AccountPermissions.tsx: props, state cells and derived values\<close>

text \<open>The destructuring of \<open>props.route.params\<close> with its two defaults.\<close>

definition isRenderedAsBottomSheet_of :: "route_params \<Rightarrow> bool" where
  "isRenderedAsBottomSheet_of ps =
     (case isRenderedAsBottomSheet_param ps of None \<Rightarrow> True | Some b \<Rightarrow> b)"

definition initialScreen_of :: "route_params \<Rightarrow> AccountPermissionsScreens" where
  "initialScreen_of ps =
     (case initialScreen_param ps of None \<Rightarrow> Connected | Some s \<Rightarrow> s)"

text \<open>The initial values of the hooks at mount.\<close>

definition mount :: "route_params \<Rightarrow> component" where
  "mount ps =
     \<lparr>isLoading = False,
      selectedAddresses = [],
      permissionsScreen = initialScreen_of ps,
      userIntent = USER_INTENT_None,
      previousPermittedAccounts = None,
      previousIdentitiesListSize = None,
      effects = []\<rparr>"

definition accountAvatarType :: "render_ctx \<Rightarrow> AvatarAccountType" where
  "accountAvatarType ctx = (if useBlockieIcon ctx then Blockies else JazzIcon)"

text \<open>
  \<open>permittedAccountsByHostname[0]\<close>: an index outside a JavaScript array reads
  \<open>undefined\<close>.
\<close>

definition activeAddress :: "render_ctx \<Rightarrow> string option" where
  "activeAddress ctx =
     (case permittedAccountsByHostname ctx of [] \<Rightarrow> None | a # _ \<Rightarrow> Some a)"

text \<open>State setters and collaborator calls.\<close>

definition emit :: "effect \<Rightarrow> component \<Rightarrow> component" where
  "emit e c = c\<lparr>effects := effects c @ [e]\<rparr>"

definition setIsLoading :: "bool \<Rightarrow> component \<Rightarrow> component" where
  "setIsLoading b c = c\<lparr>isLoading := b\<rparr>"

definition setSelectedAddresses :: "string list \<Rightarrow> component \<Rightarrow> component" where
  "setSelectedAddresses xs c = c\<lparr>selectedAddresses := xs\<rparr>"

definition setPermissionsScreen :: "AccountPermissionsScreens \<Rightarrow> component \<Rightarrow> component" where
  "setPermissionsScreen s c = c\<lparr>permissionsScreen := s\<rparr>"

definition setUserIntent :: "USER_INTENT \<Rightarrow> component \<Rightarrow> component" where
  "setUserIntent i c = c\<lparr>userIntent := i\<rparr>"

definition trackEvent :: "MetaMetricsEvents \<Rightarrow> (string \<times> param) list \<Rightarrow> component \<Rightarrow> component" where
  "trackEvent ev ps = emit (TrackEvent ev ps)"

definition Logger_error :: "error \<Rightarrow> string \<Rightarrow> component \<Rightarrow> component" where
  "Logger_error e msg = emit (LoggerError e msg)"

definition navigate :: "string \<Rightarrow> component \<Rightarrow> component" where
  "navigate screen = emit (Navigate screen)"

text \<open>
  \<open>sheetRef?.current?.onCloseBottomSheet?.(callback)\<close> and
  \<open>toastRef?.current?.showToast(options)\<close>: the optional chains make the call only when
  the reference is attached.
\<close>

definition hideSheet :: "render_ctx \<Rightarrow> effect list option \<Rightarrow> component \<Rightarrow> component" where
  "hideSheet ctx callback c =
     (if sheetRef_current ctx then emit (OnCloseBottomSheet callback) c else c)"

definition showToast :: "render_ctx \<Rightarrow> ToastOptions \<Rightarrow> component \<Rightarrow> component" where
  "showToast ctx options c =
     (if toastRef_current ctx then emit (ShowToast options) c else c)"

definition metricsSource :: string where
  "metricsSource = ''Browser Tab/Permission UI''"

section \<open>AccountPermissions.tsx: the two bookkeeping effects and the partition\<close>

text \<open>
  The first \<open>useEffect\<close>: auto dismissal. The reference is written only inside the
  guarded block, with the length of the (empty) list.
\<close>

definition plainToastProps :: ToastOptions where
  "plainToastProps =
     \<lparr>variant = ToastVariants_Plain,
      labelOptions = [\<lparr>label = [Strings ''toast.disconnected_all'' []], isBold = False\<rparr>],
      hasNoTimeout = False,
      toast_accountAddress = None,
      toast_accountAvatarType = None,
      networkImageSource = None\<rparr>"

definition networkToastProps :: "render_ctx \<Rightarrow> ToastOptions" where
  "networkToastProps ctx =
     \<lparr>variant = ToastVariants_Network,
      labelOptions =
        [\<lparr>label = [Strings ''toast.disconnected_from'' [(''dappHostName'', hostname ctx)]],
          isBold = False\<rparr>],
      hasNoTimeout = False,
      toast_accountAddress = None,
      toast_accountAvatarType = None,
      networkImageSource = Some (faviconSource ctx)\<rparr>"

definition autoDismissEffect :: "render_ctx \<Rightarrow> component \<Rightarrow> component" where
  "autoDismissEffect ctx c =
     (if previousPermittedAccounts c = None
         \<and> length (permittedAccountsByHostname ctx) = 0
         \<and> isRenderedAsBottomSheet ctx
      then
        (let c1 = hideSheet ctx None c;
             c2 = showToast ctx
                    (if isMutichainVersion1Enabled ctx then networkToastProps ctx
                     else plainToastProps) c1
         in c2\<lparr>previousPermittedAccounts := Some (length (permittedAccountsByHostname ctx))\<rparr>)
      else c)"

text \<open>The effect over successive renders of one mounted component, oldest first.\<close>

fun autoDismiss_run :: "render_ctx list \<Rightarrow> component \<Rightarrow> component" where
  "autoDismiss_run [] c = c"
| "autoDismiss_run (ctx # ctxs) c = autoDismiss_run ctxs (autoDismissEffect ctx c)"

text \<open>The calls by which the auto dismissal shows: closing the sheet, and the toast.\<close>

fun is_close :: "effect \<Rightarrow> bool" where
  "is_close (OnCloseBottomSheet _) = True"
| "is_close _ = False"

fun is_toast :: "effect \<Rightarrow> bool" where
  "is_toast (ShowToast _) = True"
| "is_toast _ = False"

text \<open>
  The second \<open>useEffect\<close>: the selected addresses are filtered when the number of
  internal accounts differs from the number recorded by the previous run.
\<close>

definition refreshSelectedAddresses :: "render_ctx \<Rightarrow> component \<Rightarrow> component" where
  "refreshSelectedAddresses ctx c =
     (let accountsAddressList =
            map (\<lambda>account. toLowerCase (InternalAccount.address account)) (internalAccounts ctx)
      in if previousIdentitiesListSize c \<noteq> Some (length accountsAddressList)
         then
           (let updatedSelectedAddresses =
                  filter (\<lambda>address. toLowerCase address \<in> set accountsAddressList)
                    (selectedAddresses c)
            in (setSelectedAddresses updatedSelectedAddresses c)
                 \<lparr>previousIdentitiesListSize := Some (length accountsAddressList)\<rparr>)
         else c)"

text \<open>
  The \<open>useMemo\<close> partition: \<open>forEach\<close> pushes each account onto one of two arrays.
\<close>

record accountsByPermittedStatus =
  permitted :: "Account list"
  unpermitted :: "Account list"

definition push_account :: "render_ctx \<Rightarrow> accountsByPermittedStatus \<Rightarrow> Account \<Rightarrow> accountsByPermittedStatus" where
  "push_account ctx acc account =
     (let lowercasedAccount = toLowerCase (Account.address account)
      in if lowercasedAccount \<in> set (permittedAccountsByHostname ctx)
         then acc\<lparr>permitted := permitted acc @ [account]\<rparr>
         else acc\<lparr>unpermitted := unpermitted acc @ [account]\<rparr>)"

definition accountsFilteredByPermissions :: "render_ctx \<Rightarrow> accountsByPermittedStatus" where
  "accountsFilteredByPermissions ctx =
     foldl (push_account ctx) \<lparr>permitted = [], unpermitted = []\<rparr> (accounts ctx)"

section \<open>AccountPermissions.tsx: handlers\<close>

text \<open>
  A handler either completes or throws, and in both cases leaves a component state
  behind. \<open>try_catch_finally\<close> is the JavaScript statement: the handler runs when the
  body throws, the finalizer runs on every path, and an exception of the handler or of
  the finalizer leaves the statement.
\<close>

type_synonym proc = "component \<Rightarrow> (error + unit) \<times> component"

definition ok :: "(component \<Rightarrow> component) \<Rightarrow> proc" where
  "ok f c = (Inr (), f c)"

definition seq :: "proc \<Rightarrow> proc \<Rightarrow> proc" where
  "seq p q c = (case p c of (Inl e, c1) \<Rightarrow> (Inl e, c1) | (Inr _, c1) \<Rightarrow> q c1)"

definition try_catch_finally :: "proc \<Rightarrow> (error \<Rightarrow> proc) \<Rightarrow> proc \<Rightarrow> proc" where
  "try_catch_finally body handler finalizer c =
     (case body c of
        (Inr _, c1) \<Rightarrow>
          (case finalizer c1 of
             (Inr _, c2) \<Rightarrow> (Inr (), c2)
           | (Inl e2, c2) \<Rightarrow> (Inl e2, c2))
      | (Inl e, c1) \<Rightarrow>
          (case handler e c1 of
             (Inr _, c2) \<Rightarrow>
               (case finalizer c2 of
                  (Inr _, c3) \<Rightarrow> (Inr (), c3)
                | (Inl e3, c3) \<Rightarrow> (Inl e3, c3))
           | (Inl e2, c2) \<Rightarrow>
               (case finalizer c2 of
                  (Inr _, c3) \<Rightarrow> (Inl e2, c3)
                | (Inl e3, c3) \<Rightarrow> (Inl e3, c3))))"

text \<open>
  \<open>handleCreateAccount\<close> is an async function. Up to the \<open>await\<close> it runs inside the
  caller: it sets the loading flag and calls \<open>KeyringController.addNewAccount()\<close>. The
  rest of the \<open>try\<close> statement runs when that promise settles, with the outcome
  (\<open>Inl\<close> a rejection, \<open>Inr\<close> a fulfilment). The result of \<open>handleCreateAccount\<close> is
  the settlement of the promise the async function returns: \<open>Inl\<close> would be an
  exception leaving it.
\<close>

definition handleCreateAccount_begin :: "component \<Rightarrow> component" where
  "handleCreateAccount_begin c = emit AddNewAccount (setIsLoading True c)"

definition handleCreateAccount_settle :: "render_ctx \<Rightarrow> error + unit \<Rightarrow> proc" where
  "handleCreateAccount_settle ctx outcome =
     try_catch_finally
       (\<lambda>c. case outcome of
               Inl e \<Rightarrow> (Inl e, c)
             | Inr _ \<Rightarrow>
                 (Inr (),
                  trackEvent SWITCHED_ACCOUNT
                    [(''source'', PStr metricsSource),
                     (''number_of_accounts'', PNum (length (accounts ctx)))]
                    (trackEvent ACCOUNTS_ADDED_NEW_ACCOUNT [] c)))
       (\<lambda>e. ok (Logger_error e ''Error while trying to add a new account.''))
       (ok (setIsLoading False))"

definition handleCreateAccount :: "render_ctx \<Rightarrow> error + unit \<Rightarrow> proc" where
  "handleCreateAccount ctx outcome c =
     handleCreateAccount_settle ctx outcome (handleCreateAccount_begin c)"

text \<open>\<open>handleConnect\<close> is synchronous; two of the calls in its \<open>try\<close> block can throw.\<close>

definition connect_labelOptions :: "nat \<Rightarrow> string \<Rightarrow> ToastLabel list" where
  "connect_labelOptions connectedAccountLength activeAccountName =
     (if connectedAccountLength > 1 then
        [\<lparr>label = [Num connectedAccountLength, Lit '' ''], isBold = True\<rparr>,
         \<lparr>label = [Strings ''toast.accounts_connected'' [], Lit [CHR 0x0A]], isBold = False\<rparr>,
         \<lparr>label = [Lit activeAccountName, Lit '' ''], isBold = True\<rparr>,
         \<lparr>label = [Strings ''toast.now_active'' []], isBold = False\<rparr>]
      else
        [\<lparr>label = [Lit activeAccountName, Lit '' ''], isBold = True\<rparr>,
         \<lparr>label = [Strings ''toast.connected_and_active'' []], isBold = False\<rparr>])"

definition handleConnect_body :: "render_ctx \<Rightarrow> proc" where
  "handleConnect_body ctx c =
     (let c1 = setIsLoading True c;
          c2 = emit (AddPermittedAccounts (hostname ctx) (selectedAddresses c)) c1
      in case addPermittedAccounts ctx (hostname ctx) (selectedAddresses c) of
           Inl e \<Rightarrow> (Inl e, c2)
         | Inr newActiveAddress \<Rightarrow>
             (case getAccountNameWithENS ctx newActiveAddress (accounts ctx) of
                Inl e \<Rightarrow> (Inl e, c2)
              | Inr activeAccountName \<Rightarrow>
                  (let connectedAccountLength = length (selectedAddresses c);
                       c3 = showToast ctx
                              \<lparr>variant = ToastVariants_Account,
                               labelOptions =
                                 connect_labelOptions connectedAccountLength activeAccountName,
                               hasNoTimeout = False,
                               toast_accountAddress = Some newActiveAddress,
                               toast_accountAvatarType = Some (accountAvatarType ctx),
                               networkImageSource = None\<rparr> c2;
                       c4 = trackEvent ADD_ACCOUNT_DAPP_PERMISSIONS
                              [(''number_of_accounts'', PNum (accountsLength ctx)),
                               (''number_of_accounts_connected'', PNum connectedAccountLength),
                               (''number_of_networks'', PNum (nonTestnetNetworks ctx))] c3
                   in (Inr (), c4))))"

definition handleConnect :: "render_ctx \<Rightarrow> proc" where
  "handleConnect ctx =
     try_catch_finally
       (handleConnect_body ctx)
       (\<lambda>e. ok (Logger_error e ''Error while trying to connect to a dApp.''))
       (ok (setIsLoading False))"

text \<open>
  The third \<open>useEffect\<close>. The switch has no default branch. The call of the async
  \<open>handleCreateAccount\<close> is not awaited, so only its part before the \<open>await\<close> belongs
  to the effect.
\<close>

definition switched_account_callback :: "render_ctx \<Rightarrow> effect list" where
  "switched_account_callback ctx =
     [TrackEvent SWITCHED_ACCOUNT
        [(''source'', PStr metricsSource),
         (''number_of_accounts'', PNum (length (accounts ctx)))]]"

fun handleUserActions :: "render_ctx \<Rightarrow> USER_INTENT \<Rightarrow> proc" where
  "handleUserActions ctx USER_INTENT_Confirm =
     seq (handleConnect ctx) (ok (hideSheet ctx (Some (switched_account_callback ctx))))"
| "handleUserActions ctx USER_INTENT_Create = ok handleCreateAccount_begin"
| "handleUserActions ctx USER_INTENT_CreateMultiple = ok handleCreateAccount_begin"
| "handleUserActions ctx USER_INTENT_Cancel = ok (hideSheet ctx None)"
| "handleUserActions ctx USER_INTENT_Import =
     seq (ok (navigate ''ImportPrivateKeyView''))
         (ok (trackEvent ACCOUNTS_IMPORTED_NEW_ACCOUNT []))"
| "handleUserActions ctx USER_INTENT_ConnectHW =
     seq (ok (navigate ''ConnectQRHardwareFlow''))
         (ok (trackEvent CONNECT_HARDWARE_WALLET []))"
| "handleUserActions ctx USER_INTENT_None = ok (\<lambda>c. c)"

definition userIntentEffect :: "render_ctx \<Rightarrow> proc" where
  "userIntentEffect ctx c =
     (if userIntent c = USER_INTENT_None then (Inr (), c)
      else seq (handleUserActions ctx (userIntent c)) (ok (setUserIntent USER_INTENT_None)) c)"

text \<open>
  The commands among the calls: persisting accounts, creating an account, closing the
  sheet and navigating. Analytics events, toasts and log lines are reports.
\<close>

fun is_command :: "effect \<Rightarrow> bool" where
  "is_command AddNewAccount = True"
| "is_command (AddPermittedAccounts _ _) = True"
| "is_command (OnCloseBottomSheet _) = True"
| "is_command (Navigate _) = True"
| "is_command (TrackEvent _ _) = False"
| "is_command (LoggerError _ _) = False"
| "is_command (ShowToast _) = False"

text \<open>The calls a step added to the log.\<close>

definition new_effects :: "component \<Rightarrow> component \<Rightarrow> effect list" where
  "new_effects c c' = drop (length (effects c)) (effects c')"

section \<open>AccountPermissions.tsx: rendering\<close>

text \<open>
  The rendered elements, with the props that carry state: which list of accounts, which
  selection, the loading flag, the host, the title and where \<open>onBack\<close> leads.
\<close>

datatype on_back = Back_setPermissionsScreen AccountPermissionsScreens | Back_navigate string

datatype element =
    AccountPermissionsConnected_element bool "Account list" "string option list" string
  | AccountConnectMultiSelector_element "Account list" "string list" bool string on_back label_part
  | NetworkConnectMultiSelector_element bool string on_back
  | AccountPermissionsRevoke_element "Account list" "string list" bool string
  | PermissionsSummary_element string bool on_back bool
  | BottomSheet_element element

definition renderConnectedScreen :: "render_ctx \<Rightarrow> component \<Rightarrow> element" where
  "renderConnectedScreen ctx c =
     AccountPermissionsConnected_element (isLoading c)
       (permitted (accountsFilteredByPermissions ctx)) [activeAddress ctx] (hostname ctx)"

definition renderPermissionsSummaryScreen :: "render_ctx \<Rightarrow> component \<Rightarrow> element" where
  "renderPermissionsSummaryScreen ctx c =
     PermissionsSummary_element (urlWithProtocol ctx) False
       (if isRenderedAsBottomSheet ctx then Back_setPermissionsScreen Connected
        else Back_navigate ''PermissionsManager'')
       False"

definition renderEditAccountsPermissionsScreen :: "render_ctx \<Rightarrow> component \<Rightarrow> element" where
  "renderEditAccountsPermissionsScreen ctx c =
     AccountConnectMultiSelector_element (unpermitted (accountsFilteredByPermissions ctx))
       (selectedAddresses c) (isLoading c) (hostname ctx)
       (Back_setPermissionsScreen PermissionsSummary)
       (Strings ''accounts.edit_accounts_title'' [])"

definition renderConnectMoreAccountsScreen :: "render_ctx \<Rightarrow> component \<Rightarrow> element" where
  "renderConnectMoreAccountsScreen ctx c =
     AccountConnectMultiSelector_element (unpermitted (accountsFilteredByPermissions ctx))
       (selectedAddresses c) (isLoading c) (hostname ctx)
       (Back_setPermissionsScreen Connected)
       (Strings ''accounts.connect_more_accounts'' [])"

definition renderConnectNetworksScreen :: "render_ctx \<Rightarrow> component \<Rightarrow> element" where
  "renderConnectNetworksScreen ctx c =
     NetworkConnectMultiSelector_element (isLoading c) (hostname ctx)
       (Back_setPermissionsScreen PermissionsSummary)"

definition renderRevokeScreen :: "render_ctx \<Rightarrow> component \<Rightarrow> element" where
  "renderRevokeScreen ctx c =
     AccountPermissionsRevoke_element (permitted (accountsFilteredByPermissions ctx))
       (permittedAccountsByHostname ctx) (isLoading c) (hostname ctx)"

text \<open>
  A switch that matches no case falls out of the function, which then returns
  \<open>undefined\<close>: the result is optional, and every case returns an element.
\<close>

definition renderPermissionsScreens :: "render_ctx \<Rightarrow> component \<Rightarrow> element option" where
  "renderPermissionsScreens ctx c =
     (case permissionsScreen c of
        Connected \<Rightarrow> Some (renderConnectedScreen ctx c)
      | ConnectMoreAccounts \<Rightarrow> Some (renderConnectMoreAccountsScreen ctx c)
      | EditAccountsPermissions \<Rightarrow> Some (renderEditAccountsPermissionsScreen ctx c)
      | ConnectMoreNetworks \<Rightarrow> Some (renderConnectNetworksScreen ctx c)
      | Revoke \<Rightarrow> Some (renderRevokeScreen ctx c)
      | PermissionsSummary \<Rightarrow> Some (renderPermissionsSummaryScreen ctx c))"

definition AccountPermissions :: "render_ctx \<Rightarrow> component \<Rightarrow> element option" where
  "AccountPermissions ctx c =
     (if isRenderedAsBottomSheet ctx
      then map_option BottomSheet_element (renderPermissionsScreens ctx c)
      else renderPermissionsScreens ctx c)"

section \<open>Concrete inputs\<close>

text \<open>
  A render context used to evaluate the definitions: a bottom sheet with both
  references attached, no accounts, and collaborators that succeed on a non-empty
  selection (\<open>addPermittedAccounts\<close> throws on an empty one).
\<close>

definition sample_ctx :: render_ctx where
  "sample_ctx =
     \<lparr>hostname = ''dapp.example'',
      isRenderedAsBottomSheet = True,
      permittedAccountsByHostname = [],
      internalAccounts = [],
      accounts = [],
      accountsLength = 0,
      nonTestnetNetworks = 1,
      useBlockieIcon = False,
      faviconSource = ''favicon.ico'',
      urlWithProtocol = ''https://dapp.example'',
      sheetRef_current = True,
      toastRef_current = True,
      isMutichainVersion1Enabled = False,
      addPermittedAccounts =
        (\<lambda>host addresses. case addresses of
                             [] \<Rightarrow> Inl (Error ''no accounts'')
                           | a # _ \<Rightarrow> Inr a),
      getAccountNameWithENS = (\<lambda>accountAddress accs. Inr ''Account 1'')\<rparr>"

text \<open>
  The same context for a component that is not rendered as a bottom sheet: no
  \<open>BottomSheet\<close> element is rendered, so \<open>sheetRef.current\<close> stays \<open>null\<close>.
\<close>

definition detached_ctx :: render_ctx where
  "detached_ctx = sample_ctx\<lparr>isRenderedAsBottomSheet := False, sheetRef_current := False\<rparr>"

definition sample_params :: route_params where
  "sample_params =
     \<lparr>origin = ''dapp.example'',
      isRenderedAsBottomSheet_param = None,
      initialScreen_param = None\<rparr>"


section \<open>Properties of the browser gate\<close>

lemma browser_step_flag:
  "shouldOpenBrowser (fst (browser_step e st)) = (shouldOpenBrowser st \<or> e = ProbeFulfilled)"
  by (cases e) simp_all

lemma browser_run_flag:
  "shouldOpenBrowser (fst (browser_run es st)) = (shouldOpenBrowser st \<or> ProbeFulfilled \<in> set es)"
proof (induction es arbitrary: st)
  case Nil
  show ?case by simp
next
  case (Cons e es)
  have "shouldOpenBrowser (fst (browser_run (e # es) st))
        = shouldOpenBrowser (fst (browser_run es (fst (browser_step e st))))"
    by (simp add: split_beta)
  also have "\<dots> = (shouldOpenBrowser (fst (browser_step e st)) \<or> ProbeFulfilled \<in> set es)"
    by (rule Cons.IH)
  also have "\<dots> = (shouldOpenBrowser st \<or> ProbeFulfilled \<in> set (e # es))"
    by (auto simp: browser_step_flag)
  finally show ?case .
qed

lemma browser_step_no_open:
  "\<not> shouldOpenBrowser st \<Longrightarrow> snd (browser_step e st) = []"
  by (cases e) (simp_all add: InAppBrowserView_def)

lemma browser_run_no_open:
  "\<not> shouldOpenBrowser st \<Longrightarrow> ProbeFulfilled \<notin> set es \<Longrightarrow> snd (browser_run es st) = []"
proof (induction es arbitrary: st)
  case Nil
  show ?case by simp
next
  case (Cons e es)
  from Cons.prems have ne: "e \<noteq> ProbeFulfilled" and rest: "ProbeFulfilled \<notin> set es"
    by auto
  from Cons.prems(1) ne have "\<not> shouldOpenBrowser (fst (browser_step e st))"
    by (simp add: browser_step_flag)
  then have "snd (browser_run es (fst (browser_step e st))) = []"
    using rest by (rule Cons.IH)
  moreover have "snd (browser_step e st) = []"
    using Cons.prems(1) by (rule browser_step_no_open)
  ultimately show ?case
    by (simp add: split_beta)
qed

lemma browser_run_append:
  "browser_run (es @ es') st
     = (case browser_run es st of
          (s1, f1) \<Rightarrow> (case browser_run es' s1 of (s2, f2) \<Rightarrow> (s2, f1 @ f2)))"
  by (induction es arbitrary: st) (simp_all add: split_beta)

lemma browser_run_url:
  "url (fst (browser_run es st))
     = foldl (\<lambda>u e. case e of ChangeText s \<Rightarrow> s | _ \<Rightarrow> u) (url st) es"
proof (induction es arbitrary: st)
  case Nil
  show ?case by simp
next
  case (Cons e es)
  have "url (fst (browser_run (e # es) st)) = url (fst (browser_run es (fst (browser_step e st))))"
    by (simp add: split_beta)
  also have "\<dots> = foldl (\<lambda>u e. case e of ChangeText s \<Rightarrow> s | _ \<Rightarrow> u)
                      (url (fst (browser_step e st))) es"
    by (rule Cons.IH)
  also have "url (fst (browser_step e st)) = (case e of ChangeText s \<Rightarrow> s | _ \<Rightarrow> url st)"
    by (cases e) simp_all
  finally show ?case by simp
qed

lemma browser_run_label:
  "browserPlaceholderText (fst (browser_run es st))
     = foldl (\<lambda>t e. case e of ProbeFulfilled \<Rightarrow> ''Browser available''
                     | ProbeRejected \<Rightarrow> ''Browser not Available''
                     | _ \<Rightarrow> t) (browserPlaceholderText st) es"
proof (induction es arbitrary: st)
  case Nil
  show ?case by simp
next
  case (Cons e es)
  have "browserPlaceholderText (fst (browser_run (e # es) st))
          = browserPlaceholderText (fst (browser_run es (fst (browser_step e st))))"
    by (simp add: split_beta)
  also have "\<dots> = foldl (\<lambda>t e. case e of ProbeFulfilled \<Rightarrow> ''Browser available''
                     | ProbeRejected \<Rightarrow> ''Browser not Available''
                     | _ \<Rightarrow> t) (browserPlaceholderText (fst (browser_step e st))) es"
    by (rule Cons.IH)
  also have "browserPlaceholderText (fst (browser_step e st))
          = (case e of ProbeFulfilled \<Rightarrow> ''Browser available''
                     | ProbeRejected \<Rightarrow> ''Browser not Available''
                     | _ \<Rightarrow> browserPlaceholderText st)"
    by (cases e) simp_all
  finally show ?case by simp
qed

lemma browser_run_snoc:
  "snd (browser_run (es @ [e]) st)
     = snd (browser_run es st) @ snd (browser_step e (fst (browser_run es st)))"
  by (simp add: browser_run_append split_beta)

lemma browser_step_calls:
  "snd (browser_step e st)
     = (if e = Press \<and> shouldOpenBrowser st then [Open (url st) opts] else [])"
  by (cases e) (simp_all add: InAppBrowserView_def handleOpenBrowserButtonPress_def)

text \<open>
  C5, as the claim is worded: the probe is made once on mount and the enabled action
  opens a fixed URL. The URL is a state cell bound to the text input, so after a
  successful probe and an edit of the input the press opens the edited URL; and the
  probe call sits in the component body, so the evaluation that follows the first
  change of state makes it a second time.
\<close>

theorem C5_url_and_probe_counterexample:
  "snd (browser_run [ProbeFulfilled, ChangeText ''https://example.org/'', Press] browser_initial)
     = [Open ''https://example.org/'' opts]
   \<and> ''https://example.org/'' \<noteq> ''https://home.metamask.io/''
   \<and> browser_mounted [ProbeFulfilled] = [IsAvailable, IsAvailable]"
  by (simp add: browser_initial_def InAppBrowserView_def handleOpenBrowserButtonPress_def
      browser_mounted_def)

text \<open>
  C5, amended: the browser gate probes the external availability capability on mount,
  and again at every later evaluation of the component; when a probe succeeds it enables
  a single action that, when pressed, opens the URL held in the \<open>url\<close> cell at that
  moment (initially \<open>https://home.metamask.io/\<close>, replaced by whatever the text input
  last reported) with a fixed options bag; when a probe fails it leaves the action as it
  was, disabled unless a probe has succeeded before, and shows a status label. Stated
  for every sequence of events of a mounted component: what the element shows after it,
  and which call each further event makes.
\<close>

theorem C5_browser_gate:
  "fst (InAppBrowserView st) = [IsAvailable]
   \<and> browser_mounted [] = [IsAvailable]
   \<and> pressable_disabled (snd (InAppBrowserView (fst (browser_run es browser_initial))))
       = (ProbeFulfilled \<notin> set es)
   \<and> text_label (snd (InAppBrowserView (fst (browser_run es browser_initial))))
       = foldl (\<lambda>t e. case e of ProbeFulfilled \<Rightarrow> ''Browser available''
                       | ProbeRejected \<Rightarrow> ''Browser not Available''
                       | _ \<Rightarrow> t) ''Checking browser availability'' es
   \<and> input_value (snd (InAppBrowserView (fst (browser_run es browser_initial))))
       = foldl (\<lambda>u e. case e of ChangeText s \<Rightarrow> s | _ \<Rightarrow> u) ''https://home.metamask.io/'' es
   \<and> snd (browser_run (es @ [e]) browser_initial)
       = snd (browser_run es browser_initial)
         @ (if e = Press \<and> ProbeFulfilled \<in> set es
            then [Open (foldl (\<lambda>u e. case e of ChangeText s \<Rightarrow> s | _ \<Rightarrow> u)
                          ''https://home.metamask.io/'' es) opts]
            else [])
   \<and> browser_step ProbeFulfilled st
       = (st\<lparr>browserPlaceholderText := ''Browser available'', shouldOpenBrowser := True\<rparr>, [])
   \<and> browser_step ProbeRejected st
       = (st\<lparr>browserPlaceholderText := ''Browser not Available''\<rparr>, [])"
proof -
  let ?st = "fst (browser_run es browser_initial)"
  have flag: "shouldOpenBrowser ?st = (ProbeFulfilled \<in> set es)"
    by (simp add: browser_run_flag browser_initial_def)
  have u: "url ?st = foldl (\<lambda>u e. case e of ChangeText s \<Rightarrow> s | _ \<Rightarrow> u)
                       ''https://home.metamask.io/'' es"
    by (simp add: browser_run_url browser_initial_def)
  have t: "browserPlaceholderText ?st
       = foldl (\<lambda>t e. case e of ProbeFulfilled \<Rightarrow> ''Browser available''
                       | ProbeRejected \<Rightarrow> ''Browser not Available''
                       | _ \<Rightarrow> t) ''Checking browser availability'' es"
    by (simp add: browser_run_label browser_initial_def)
  have calls: "snd (browser_run (es @ [e]) browser_initial)
       = snd (browser_run es browser_initial)
         @ (if e = Press \<and> ProbeFulfilled \<in> set es
            then [Open (foldl (\<lambda>u e. case e of ChangeText s \<Rightarrow> s | _ \<Rightarrow> u)
                          ''https://home.metamask.io/'' es) opts]
            else [])"
    by (simp only: browser_run_snoc browser_step_calls flag u)
  have ev: "fst (InAppBrowserView st) = [IsAvailable]"
    by (simp add: InAppBrowserView_def)
  have m: "browser_mounted [] = [IsAvailable]"
    by (simp add: browser_mounted_def InAppBrowserView_def)
  have v: "pressable_disabled (snd (InAppBrowserView ?st)) = (ProbeFulfilled \<notin> set es)"
    "text_label (snd (InAppBrowserView ?st)) = browserPlaceholderText ?st"
    "input_value (snd (InAppBrowserView ?st)) = url ?st"
    using flag by (simp_all add: InAppBrowserView_def)
  from ev m v u t calls show ?thesis
    by simp
qed

text \<open>
  C6: the open action is disabled in the initial state and after every sequence of
  events in which no probe has been fulfilled (rejections, edits and presses included),
  and no \<open>open\<close> call is made in such a sequence; after any sequence of events the action
  is enabled exactly when some probe was fulfilled, and a rejected probe never changes
  the flag.
\<close>

theorem C6_disabled_until_probe_fulfilled:
  "pressable_disabled (snd (InAppBrowserView browser_initial))
   \<and> pressable_disabled (snd (InAppBrowserView (fst (browser_run es browser_initial))))
       = (ProbeFulfilled \<notin> set es)
   \<and> (ProbeFulfilled \<notin> set es \<longrightarrow> snd (browser_run es browser_initial) = [])
   \<and> shouldOpenBrowser (fst (browser_step ProbeRejected st)) = shouldOpenBrowser st"
proof -
  have init: "\<not> shouldOpenBrowser browser_initial"
    by (simp add: browser_initial_def)
  have a: "pressable_disabled (snd (InAppBrowserView browser_initial))"
    using init by (simp add: InAppBrowserView_def)
  have b: "pressable_disabled (snd (InAppBrowserView (fst (browser_run es browser_initial))))
           = (ProbeFulfilled \<notin> set es)"
    using init by (simp add: InAppBrowserView_def browser_run_flag)
  have c: "ProbeFulfilled \<notin> set es \<longrightarrow> snd (browser_run es browser_initial) = []"
    using init by (simp add: browser_run_no_open)
  have d: "shouldOpenBrowser (fst (browser_step ProbeRejected st)) = shouldOpenBrowser st"
    by simp
  from a b c d show ?thesis by blast
qed

theorem C6_disabled_until_probe_fulfilled_witness:
  "ProbeFulfilled \<notin> set [ProbeRejected, ChangeText ''https://example.org/'', Press]
   \<and> pressable_disabled (snd (InAppBrowserView (fst (browser_run
        [ProbeRejected, ChangeText ''https://example.org/'', Press] browser_initial))))
   \<and> snd (browser_run [ProbeRejected, ChangeText ''https://example.org/'', Press] browser_initial) = []"
  using C6_disabled_until_probe_fulfilled
    [of "[ProbeRejected, ChangeText ''https://example.org/'', Press]" browser_initial]
  by simp

section \<open>The permitted/unpermitted partition\<close>

lemma foldl_push_account:
  "foldl (push_account ctx) acc xs =
     \<lparr>permitted = permitted acc
        @ filter (\<lambda>a. toLowerCase (Account.address a) \<in> set (permittedAccountsByHostname ctx)) xs,
      unpermitted = unpermitted acc
        @ filter (\<lambda>a. toLowerCase (Account.address a) \<notin> set (permittedAccountsByHostname ctx)) xs\<rparr>"
proof (induction xs arbitrary: acc)
  case Nil
  show ?case by simp
next
  case (Cons x xs)
  show ?case
    by (simp only: foldl_Cons Cons.IH) (simp add: push_account_def)
qed

lemma count_list_filter_split:
  "count_list (filter P xs) a + count_list (filter (\<lambda>x. \<not> P x) xs) a = count_list xs a"
  by (induction xs) auto

text \<open>
  C4: for every account list and every permitted-accounts list, the two buckets are the
  accounts whose lower-cased address is a member of the permitted list and those whose
  is not, each in the order of the account list; every account occurs in the buckets as
  often as in the account list, no account is in both buckets, and together they hold
  all accounts.
\<close>

theorem C4_partition_is_disjoint_cover:
  "permitted (accountsFilteredByPermissions ctx)
     = filter (\<lambda>a. toLowerCase (Account.address a) \<in> set (permittedAccountsByHostname ctx))
         (accounts ctx)
   \<and> unpermitted (accountsFilteredByPermissions ctx)
     = filter (\<lambda>a. toLowerCase (Account.address a) \<notin> set (permittedAccountsByHostname ctx))
         (accounts ctx)
   \<and> count_list (permitted (accountsFilteredByPermissions ctx)) a
       + count_list (unpermitted (accountsFilteredByPermissions ctx)) a
       = count_list (accounts ctx) a
   \<and> set (permitted (accountsFilteredByPermissions ctx))
       \<inter> set (unpermitted (accountsFilteredByPermissions ctx)) = {}
   \<and> set (permitted (accountsFilteredByPermissions ctx))
       \<union> set (unpermitted (accountsFilteredByPermissions ctx)) = set (accounts ctx)"
proof -
  let ?P = "\<lambda>a. toLowerCase (Account.address a) \<in> set (permittedAccountsByHostname ctx)"
  have p: "permitted (accountsFilteredByPermissions ctx) = filter ?P (accounts ctx)"
    by (simp add: accountsFilteredByPermissions_def foldl_push_account)
  have u: "unpermitted (accountsFilteredByPermissions ctx)
             = filter (\<lambda>a. \<not> ?P a) (accounts ctx)"
    by (simp add: accountsFilteredByPermissions_def foldl_push_account)
  have cnt: "count_list (filter ?P (accounts ctx)) a
               + count_list (filter (\<lambda>a. \<not> ?P a) (accounts ctx)) a
             = count_list (accounts ctx) a"
    by (rule count_list_filter_split)
  have disj: "set (filter ?P (accounts ctx)) \<inter> set (filter (\<lambda>a. \<not> ?P a) (accounts ctx)) = {}"
    by auto
  have cover: "set (filter ?P (accounts ctx)) \<union> set (filter (\<lambda>a. \<not> ?P a) (accounts ctx))
                 = set (accounts ctx)"
    by auto
  from p u cnt disj cover show ?thesis by simp
qed

section \<open>The selected addresses after a change of the account list\<close>

text \<open>
  C3, as the claim is worded: after every update of the account list the selection holds
  only addresses of the updated list. The effect compares sizes: when one account
  replaces another, the size is the one recorded and nothing is filtered. Here the
  component is mounted with the single account \<open>0xb\<close> (first run of the effect), the
  user selects it (the effect runs again, on the changed selection), and the account
  list becomes the single account \<open>0xa\<close> (third run).
\<close>

theorem C3_same_size_counterexample:
  "selectedAddresses
     (refreshSelectedAddresses
        (sample_ctx\<lparr>internalAccounts := [\<lparr>id = ''2'', address = ''0xa''\<rparr>]\<rparr>)
        (refreshSelectedAddresses
           (sample_ctx\<lparr>internalAccounts := [\<lparr>id = ''1'', address = ''0xb''\<rparr>]\<rparr>)
           (setSelectedAddresses [''0xb'']
              (refreshSelectedAddresses
                 (sample_ctx\<lparr>internalAccounts := [\<lparr>id = ''1'', address = ''0xb''\<rparr>]\<rparr>)
                 (mount sample_params)))))
     = [''0xb'']
   \<and> toLowerCase ''0xb''
       \<notin> set (map toLowerCase (map InternalAccount.address
             (internalAccounts (sample_ctx\<lparr>internalAccounts := [\<lparr>id = ''2'', address = ''0xa''\<rparr>]\<rparr>))))"
proof
  show "selectedAddresses
     (refreshSelectedAddresses
        (sample_ctx\<lparr>internalAccounts := [\<lparr>id = ''2'', address = ''0xa''\<rparr>]\<rparr>)
        (refreshSelectedAddresses
           (sample_ctx\<lparr>internalAccounts := [\<lparr>id = ''1'', address = ''0xb''\<rparr>]\<rparr>)
           (setSelectedAddresses [''0xb'']
              (refreshSelectedAddresses
                 (sample_ctx\<lparr>internalAccounts := [\<lparr>id = ''1'', address = ''0xb''\<rparr>]\<rparr>)
                 (mount sample_params)))))
     = [''0xb'']"
    by code_simp
  show "toLowerCase ''0xb''
       \<notin> set (map toLowerCase (map InternalAccount.address
             (internalAccounts (sample_ctx\<lparr>internalAccounts := [\<lparr>id = ''2'', address = ''0xa''\<rparr>]\<rparr>))))"
    by code_simp
qed

text \<open>
  C3, amended: when the number of internal accounts differs from the number recorded by
  the previous run of the effect (at mount nothing is recorded), the resulting selection
  is the prior selection restricted to the addresses that occur, compared in lower
  case, in the updated account list, so it holds no address absent from that list, and
  the new number is recorded; when the number is the recorded one, the effect changes
  nothing.
\<close>

theorem C3_selection_filtered_on_size_change:
  "(previousIdentitiesListSize c \<noteq> Some (length (internalAccounts ctx)) \<longrightarrow>
      (\<forall>a \<in> set (selectedAddresses (refreshSelectedAddresses ctx c)).
          toLowerCase a \<in> set (map toLowerCase (map InternalAccount.address (internalAccounts ctx))))
      \<and> selectedAddresses (refreshSelectedAddresses ctx c)
          = filter (\<lambda>a. toLowerCase a
                \<in> set (map toLowerCase (map InternalAccount.address (internalAccounts ctx))))
              (selectedAddresses c)
      \<and> previousIdentitiesListSize (refreshSelectedAddresses ctx c)
          = Some (length (internalAccounts ctx)))
   \<and> (previousIdentitiesListSize c = Some (length (internalAccounts ctx)) \<longrightarrow>
        refreshSelectedAddresses ctx c = c)"
  by (simp add: refreshSelectedAddresses_def setSelectedAddresses_def Let_def comp_def)

theorem C3_selection_filtered_on_size_change_witness:
  "previousIdentitiesListSize
      (setSelectedAddresses [''0xB'', ''0xc''] (mount sample_params))
     \<noteq> Some (length (internalAccounts
           (sample_ctx\<lparr>internalAccounts := [\<lparr>id = ''1'', address = ''0xb''\<rparr>]\<rparr>)))
   \<and> selectedAddresses
       (refreshSelectedAddresses
          (sample_ctx\<lparr>internalAccounts := [\<lparr>id = ''1'', address = ''0xb''\<rparr>]\<rparr>)
          (setSelectedAddresses [''0xB'', ''0xc''] (mount sample_params)))
     = [''0xB'']
   \<and> toLowerCase ''0xB''
       \<in> set (map toLowerCase (map InternalAccount.address (internalAccounts
           (sample_ctx\<lparr>internalAccounts := [\<lparr>id = ''1'', address = ''0xb''\<rparr>]\<rparr>))))"
proof -
  let ?c = "setSelectedAddresses [''0xB'', ''0xc''] (mount sample_params)"
  let ?ctx = "sample_ctx\<lparr>internalAccounts := [\<lparr>id = ''1'', address = ''0xb''\<rparr>]\<rparr>"
  have h: "previousIdentitiesListSize ?c \<noteq> Some (length (internalAccounts ?ctx))"
    by code_simp
  have v: "selectedAddresses (refreshSelectedAddresses ?ctx ?c) = [''0xB'']"
    by code_simp
  from C3_selection_filtered_on_size_change [of ?c ?ctx] h
  have "\<forall>a \<in> set (selectedAddresses (refreshSelectedAddresses ?ctx ?c)).
          toLowerCase a \<in> set (map toLowerCase (map InternalAccount.address (internalAccounts ?ctx)))"
    by blast
  with v have "toLowerCase ''0xB''
       \<in> set (map toLowerCase (map InternalAccount.address (internalAccounts ?ctx)))"
    by simp
  with h v show ?thesis by blast
qed


section \<open>The active address and the screen router\<close>

text \<open>
  C9: the active address is read at index 0 without a guard. When the permitted-accounts
  list of the host is empty it is undefined, and the Connected screen is then rendered
  with the selected-addresses list that holds exactly this undefined value; the active
  address is defined exactly when the list is non-empty, and is then its first element.
\<close>

theorem C9_activeAddress_unguarded:
  "(permittedAccountsByHostname ctx = [] \<longrightarrow>
      activeAddress ctx = None
      \<and> renderPermissionsScreens ctx (c\<lparr>permissionsScreen := Connected\<rparr>)
          = Some (AccountPermissionsConnected_element (isLoading c)
                    (permitted (accountsFilteredByPermissions ctx)) [None] (hostname ctx)))
   \<and> (activeAddress ctx \<noteq> None) = (permittedAccountsByHostname ctx \<noteq> [])
   \<and> (permittedAccountsByHostname ctx \<noteq> [] \<longrightarrow>
        activeAddress ctx = Some (hd (permittedAccountsByHostname ctx)))"
  by (cases "permittedAccountsByHostname ctx")
     (simp_all add: activeAddress_def renderPermissionsScreens_def renderConnectedScreen_def)

theorem C9_activeAddress_unguarded_witness:
  "permittedAccountsByHostname sample_ctx = []
   \<and> activeAddress sample_ctx = None
   \<and> renderPermissionsScreens sample_ctx ((mount sample_params)\<lparr>permissionsScreen := Connected\<rparr>)
       = Some (AccountPermissionsConnected_element False [] [None] ''dapp.example'')
   \<and> permittedAccountsByHostname (sample_ctx\<lparr>permittedAccountsByHostname := [''0xa'', ''0xb'']\<rparr>) \<noteq> []
   \<and> activeAddress (sample_ctx\<lparr>permittedAccountsByHostname := [''0xa'', ''0xb'']\<rparr>) = Some ''0xa''"
proof -
  have e: "permittedAccountsByHostname sample_ctx = []"
    by (simp add: sample_ctx_def)
  have n: "permittedAccountsByHostname
             (sample_ctx\<lparr>permittedAccountsByHostname := [''0xa'', ''0xb'']\<rparr>) \<noteq> []"
    by simp
  have p: "permitted (accountsFilteredByPermissions sample_ctx) = []"
    by (simp add: accountsFilteredByPermissions_def sample_ctx_def)
  have l: "isLoading (mount sample_params) = False" and h: "hostname sample_ctx = ''dapp.example''"
    by (simp_all add: mount_def sample_ctx_def)
  from C9_activeAddress_unguarded [of sample_ctx "mount sample_params"] e
  have a: "activeAddress sample_ctx = None"
    and r: "renderPermissionsScreens sample_ctx ((mount sample_params)\<lparr>permissionsScreen := Connected\<rparr>)
       = Some (AccountPermissionsConnected_element (isLoading (mount sample_params))
                    (permitted (accountsFilteredByPermissions sample_ctx)) [None] (hostname sample_ctx))"
    by blast+
  from C9_activeAddress_unguarded
    [of "sample_ctx\<lparr>permittedAccountsByHostname := [''0xa'', ''0xb'']\<rparr>" "mount sample_params"] n
  have s: "activeAddress (sample_ctx\<lparr>permittedAccountsByHostname := [''0xa'', ''0xb'']\<rparr>)
             = Some ''0xa''"
    by simp
  from e n a r s p l h show ?thesis by simp
qed

text \<open>
  C8: the screen rendered is a function of the screen field alone among the six values,
  defined for each of them: Connected gives the connected view, ConnectMoreAccounts and
  EditAccountsPermissions the account multi-selector under their own titles and back
  targets, ConnectMoreNetworks the network multi-selector, Revoke the revoke view and
  PermissionsSummary the summary; different screens give different views. The initial
  screen is the one the caller supplies, and Connected when the caller supplies none.
\<close>

theorem C8_screen_router:
  "permissionsScreen (mount ps)
     = (case initialScreen_param ps of None \<Rightarrow> Connected | Some s \<Rightarrow> s)
   \<and> renderPermissionsScreens ctx (c\<lparr>permissionsScreen := Connected\<rparr>)
       = Some (AccountPermissionsConnected_element (isLoading c)
                 (permitted (accountsFilteredByPermissions ctx)) [activeAddress ctx] (hostname ctx))
   \<and> renderPermissionsScreens ctx (c\<lparr>permissionsScreen := ConnectMoreAccounts\<rparr>)
       = Some (AccountConnectMultiSelector_element
                 (unpermitted (accountsFilteredByPermissions ctx)) (selectedAddresses c)
                 (isLoading c) (hostname ctx) (Back_setPermissionsScreen Connected)
                 (Strings ''accounts.connect_more_accounts'' []))
   \<and> renderPermissionsScreens ctx (c\<lparr>permissionsScreen := EditAccountsPermissions\<rparr>)
       = Some (AccountConnectMultiSelector_element
                 (unpermitted (accountsFilteredByPermissions ctx)) (selectedAddresses c)
                 (isLoading c) (hostname ctx) (Back_setPermissionsScreen PermissionsSummary)
                 (Strings ''accounts.edit_accounts_title'' []))
   \<and> renderPermissionsScreens ctx (c\<lparr>permissionsScreen := ConnectMoreNetworks\<rparr>)
       = Some (NetworkConnectMultiSelector_element (isLoading c) (hostname ctx)
                 (Back_setPermissionsScreen PermissionsSummary))
   \<and> renderPermissionsScreens ctx (c\<lparr>permissionsScreen := Revoke\<rparr>)
       = Some (AccountPermissionsRevoke_element
                 (permitted (accountsFilteredByPermissions ctx))
                 (permittedAccountsByHostname ctx) (isLoading c) (hostname ctx))
   \<and> renderPermissionsScreens ctx (c\<lparr>permissionsScreen := PermissionsSummary\<rparr>)
       = Some (PermissionsSummary_element (urlWithProtocol ctx) False
                 (if isRenderedAsBottomSheet ctx then Back_setPermissionsScreen Connected
                  else Back_navigate ''PermissionsManager'') False)
   \<and> renderPermissionsScreens ctx c \<noteq> None
   \<and> inj (\<lambda>s. renderPermissionsScreens ctx (c\<lparr>permissionsScreen := s\<rparr>))"
proof -
  have total: "renderPermissionsScreens ctx c \<noteq> None"
    by (cases "permissionsScreen c") (simp_all add: renderPermissionsScreens_def)
  have distinct: "inj (\<lambda>s. renderPermissionsScreens ctx (c\<lparr>permissionsScreen := s\<rparr>))"
  proof (rule injI)
    fix s s'
    assume "renderPermissionsScreens ctx (c\<lparr>permissionsScreen := s\<rparr>)
            = renderPermissionsScreens ctx (c\<lparr>permissionsScreen := s'\<rparr>)"
    then show "s = s'"
      by (cases s; cases s')
         (simp_all add: renderPermissionsScreens_def renderConnectedScreen_def
            renderConnectMoreAccountsScreen_def renderEditAccountsPermissionsScreen_def
            renderConnectNetworksScreen_def renderRevokeScreen_def
            renderPermissionsSummaryScreen_def)
  qed
  have cases: "permissionsScreen (mount ps)
     = (case initialScreen_param ps of None \<Rightarrow> Connected | Some s \<Rightarrow> s)"
    by (simp add: mount_def initialScreen_of_def)
  from total distinct cases show ?thesis
    by (simp add: renderPermissionsScreens_def renderConnectedScreen_def
            renderConnectMoreAccountsScreen_def renderEditAccountsPermissionsScreen_def
            renderConnectNetworksScreen_def renderRevokeScreen_def
            renderPermissionsSummaryScreen_def)
qed


section \<open>Account creation\<close>

text \<open>
  C7: for every outcome of the awaited account-creation call the async function
  completes without an exception leaving it. The loading flag is set while the call is
  pending and is cleared once it has settled, on both paths. A rejection is logged with
  its context string and makes no other call (no toast, no navigation); a fulfilment
  sends the two analytics events.
\<close>

theorem C7_handleCreateAccount_never_throws:
  "fst (handleCreateAccount ctx outcome c) = Inr ()
   \<and> isLoading (handleCreateAccount_begin c) = True
   \<and> isLoading (snd (handleCreateAccount ctx outcome c)) = False
   \<and> handleCreateAccount ctx (Inl e) c
       = (Inr (),
          c\<lparr>isLoading := False,
            effects := effects c
              @ [AddNewAccount, LoggerError e ''Error while trying to add a new account.'']\<rparr>)
   \<and> handleCreateAccount ctx (Inr ()) c
       = (Inr (),
          c\<lparr>isLoading := False,
            effects := effects c
              @ [AddNewAccount,
                 TrackEvent ACCOUNTS_ADDED_NEW_ACCOUNT [],
                 TrackEvent SWITCHED_ACCOUNT
                   [(''source'', PStr metricsSource),
                    (''number_of_accounts'', PNum (length (accounts ctx)))]]\<rparr>)"
proof -
  have rej: "handleCreateAccount ctx (Inl e') c
       = (Inr (),
          c\<lparr>isLoading := False,
            effects := effects c
              @ [AddNewAccount, LoggerError e' ''Error while trying to add a new account.'']\<rparr>)"
    for e'
    by (simp add: handleCreateAccount_def handleCreateAccount_settle_def
        handleCreateAccount_begin_def try_catch_finally_def ok_def Logger_error_def
        emit_def setIsLoading_def)
  have ful: "handleCreateAccount ctx (Inr u) c
       = (Inr (),
          c\<lparr>isLoading := False,
            effects := effects c
              @ [AddNewAccount,
                 TrackEvent ACCOUNTS_ADDED_NEW_ACCOUNT [],
                 TrackEvent SWITCHED_ACCOUNT
                   [(''source'', PStr metricsSource),
                    (''number_of_accounts'', PNum (length (accounts ctx)))]]\<rparr>)"
    for u
    by (simp add: handleCreateAccount_def handleCreateAccount_settle_def
        handleCreateAccount_begin_def try_catch_finally_def ok_def trackEvent_def
        emit_def setIsLoading_def)
  have pending: "isLoading (handleCreateAccount_begin c) = True"
    by (simp add: handleCreateAccount_begin_def emit_def setIsLoading_def)
  have "fst (handleCreateAccount ctx outcome c) = Inr ()
        \<and> isLoading (snd (handleCreateAccount ctx outcome c)) = False"
    by (cases outcome) (simp_all add: rej ful)
  with rej [of e] ful [of "()"] pending show ?thesis by simp
qed

section \<open>The connect handler and the intent effect\<close>

lemma handleConnect_throwing:
  assumes "handleConnect_body ctx c = (Inl e, c1)"
  shows "handleConnect ctx c
         = (Inr (), (Logger_error e ''Error while trying to connect to a dApp.'' c1)
                      \<lparr>isLoading := False\<rparr>)"
  using assms
  by (simp add: handleConnect_def try_catch_finally_def ok_def setIsLoading_def)

lemma handleConnect_completing:
  assumes "handleConnect_body ctx c = (Inr u, c1)"
  shows "handleConnect ctx c = (Inr (), c1\<lparr>isLoading := False\<rparr>)"
  using assms
  by (simp add: handleConnect_def try_catch_finally_def ok_def setIsLoading_def)

lemma handleConnect_body_shape:
  "snd (handleConnect_body ctx c)
     = c\<lparr>isLoading := True, effects := effects (snd (handleConnect_body ctx c))\<rparr>
   \<and> (\<exists>rs. effects (snd (handleConnect_body ctx c))
               = effects c @ AddPermittedAccounts (hostname ctx) (selectedAddresses c) # rs
             \<and> (\<forall>r \<in> set rs. \<not> is_command r))"
  by (simp add: handleConnect_body_def Let_def showToast_def trackEvent_def emit_def
      setIsLoading_def split: sum.splits)

lemma handleConnect_shape:
  "fst (handleConnect ctx c) = Inr ()
   \<and> snd (handleConnect ctx c)
       = c\<lparr>isLoading := False, effects := effects (snd (handleConnect ctx c))\<rparr>
   \<and> (\<exists>rs. effects (snd (handleConnect ctx c))
               = effects c @ AddPermittedAccounts (hostname ctx) (selectedAddresses c) # rs
             \<and> (\<forall>r \<in> set rs. \<not> is_command r))"
proof -
  let ?b = "snd (handleConnect_body ctx c)"
  from handleConnect_body_shape [of ctx c]
  obtain rs where state: "?b = c\<lparr>isLoading := True, effects := effects ?b\<rparr>"
    and body: "effects ?b
          = effects c @ AddPermittedAccounts (hostname ctx) (selectedAddresses c) # rs"
    and reports: "\<forall>r \<in> set rs. \<not> is_command r"
    by blast
  show ?thesis
  proof (cases "fst (handleConnect_body ctx c)")
    case (Inl e)
    then have "handleConnect_body ctx c = (Inl e, ?b)"
      by (simp add: prod_eq_iff)
    then have r: "handleConnect ctx c
         = (Inr (), (Logger_error e ''Error while trying to connect to a dApp.'' ?b)
                      \<lparr>isLoading := False\<rparr>)"
      by (rule handleConnect_throwing)
    have s: "(Logger_error e ''Error while trying to connect to a dApp.'' ?b)\<lparr>isLoading := False\<rparr>
             = c\<lparr>isLoading := False,
                 effects := effects ?b @ [LoggerError e ''Error while trying to connect to a dApp.'']\<rparr>"
      by (subst state) (simp add: Logger_error_def emit_def)
    have "effects ?b @ [LoggerError e ''Error while trying to connect to a dApp.'']
            = effects c @ AddPermittedAccounts (hostname ctx) (selectedAddresses c)
                # (rs @ [LoggerError e ''Error while trying to connect to a dApp.''])"
      by (simp add: body)
    moreover have "\<forall>r \<in> set (rs @ [LoggerError e ''Error while trying to connect to a dApp.'']).
                     \<not> is_command r"
      using reports by simp
    ultimately show ?thesis
      unfolding r s by (intro conjI exI [of _ "rs @ [LoggerError e ''Error while trying to connect to a dApp.'']"]) simp_all
  next
    case (Inr u)
    then have "handleConnect_body ctx c = (Inr u, ?b)"
      by (simp add: prod_eq_iff)
    then have r: "handleConnect ctx c = (Inr (), ?b\<lparr>isLoading := False\<rparr>)"
      by (rule handleConnect_completing)
    have s: "?b\<lparr>isLoading := False\<rparr> = c\<lparr>isLoading := False, effects := effects ?b\<rparr>"
      by (subst state) simp
    from body reports show ?thesis
      unfolding r s by (intro conjI exI [of _ rs]) simp_all
  qed
qed

lemma handleConnect_rejected:
  assumes "addPermittedAccounts ctx (hostname ctx) (selectedAddresses c) = Inl e"
  shows "handleConnect ctx c
          = (Inr (),
             c\<lparr>isLoading := False,
               effects := effects c
                 @ [AddPermittedAccounts (hostname ctx) (selectedAddresses c),
                    LoggerError e ''Error while trying to connect to a dApp.'']\<rparr>)"
proof -
  have "handleConnect_body ctx c
        = (Inl e, emit (AddPermittedAccounts (hostname ctx) (selectedAddresses c))
                    (setIsLoading True c))"
    using assms by (simp add: handleConnect_body_def Let_def)
  then have "handleConnect ctx c
         = (Inr (), (Logger_error e ''Error while trying to connect to a dApp.''
                       (emit (AddPermittedAccounts (hostname ctx) (selectedAddresses c))
                          (setIsLoading True c)))\<lparr>isLoading := False\<rparr>)"
    by (rule handleConnect_throwing)
  then show ?thesis
    by (simp add: Logger_error_def emit_def setIsLoading_def)
qed

lemma new_effects_append:
  "effects c' = effects c @ xs \<Longrightarrow> new_effects c c' = xs"
  by (simp add: new_effects_def)

lemma handleUserActions_confirm:
  "handleUserActions ctx USER_INTENT_Confirm c
     = (Inr (), hideSheet ctx (Some (switched_account_callback ctx)) (snd (handleConnect ctx c)))"
proof -
  have "fst (handleConnect ctx c) = Inr ()"
    using handleConnect_shape [of ctx c] by blast
  then obtain c1 where r: "handleConnect ctx c = (Inr (), c1)"
    by (cases "handleConnect ctx c") simp
  show ?thesis
    by (simp add: seq_def ok_def r)
qed

lemma confirm_commands:
  "userIntent (snd (handleUserActions ctx USER_INTENT_Confirm c)) = userIntent c
   \<and> isLoading (snd (handleUserActions ctx USER_INTENT_Confirm c)) = False
   \<and> filter is_command (new_effects c (snd (handleUserActions ctx USER_INTENT_Confirm c)))
       = AddPermittedAccounts (hostname ctx) (selectedAddresses c)
           # (if sheetRef_current ctx
              then [OnCloseBottomSheet (Some (switched_account_callback ctx))] else [])"
proof -
  let ?h = "snd (handleConnect ctx c)"
  from handleConnect_shape [of ctx c]
  obtain rs where state: "?h = c\<lparr>isLoading := False, effects := effects ?h\<rparr>"
    and eff: "effects ?h
          = effects c @ AddPermittedAccounts (hostname ctx) (selectedAddresses c) # rs"
    and reports: "\<forall>r \<in> set rs. \<not> is_command r"
    by blast
  from reports have none: "filter is_command rs = []"
    by (simp add: filter_empty_conv)
  have ui: "userIntent ?h = userIntent c" and il: "isLoading ?h = False"
    by (subst state, simp)+
  have "effects (hideSheet ctx (Some (switched_account_callback ctx)) ?h)
          = effects c @ (AddPermittedAccounts (hostname ctx) (selectedAddresses c) # rs
              @ (if sheetRef_current ctx
                 then [OnCloseBottomSheet (Some (switched_account_callback ctx))] else []))"
    by (simp add: hideSheet_def emit_def eff)
  then have "new_effects c (hideSheet ctx (Some (switched_account_callback ctx)) ?h)
          = AddPermittedAccounts (hostname ctx) (selectedAddresses c) # rs
              @ (if sheetRef_current ctx
                 then [OnCloseBottomSheet (Some (switched_account_callback ctx))] else [])"
    by (rule new_effects_append)
  then have "filter is_command
               (new_effects c (hideSheet ctx (Some (switched_account_callback ctx)) ?h))
          = AddPermittedAccounts (hostname ctx) (selectedAddresses c)
              # (if sheetRef_current ctx
                 then [OnCloseBottomSheet (Some (switched_account_callback ctx))] else [])"
    by (simp add: none)
  moreover have "userIntent (hideSheet ctx (Some (switched_account_callback ctx)) ?h) = userIntent c"
    "isLoading (hideSheet ctx (Some (switched_account_callback ctx)) ?h) = False"
    using ui il by (simp_all add: hideSheet_def emit_def)
  ultimately show ?thesis
    by (simp del: handleUserActions.simps add: handleUserActions_confirm)
qed

lemma handleConnect_exact:
  "handleConnect ctx c
     = (Inr (),
        c\<lparr>isLoading := False,
          effects := effects c
            @ AddPermittedAccounts (hostname ctx) (selectedAddresses c)
              # (case addPermittedAccounts ctx (hostname ctx) (selectedAddresses c) of
                   Inl e \<Rightarrow> [LoggerError e ''Error while trying to connect to a dApp.'']
                 | Inr newActiveAddress \<Rightarrow>
                     (case getAccountNameWithENS ctx newActiveAddress (accounts ctx) of
                        Inl e \<Rightarrow> [LoggerError e ''Error while trying to connect to a dApp.'']
                      | Inr activeAccountName \<Rightarrow>
                          (if toastRef_current ctx
                           then [ShowToast
                                   \<lparr>variant = ToastVariants_Account,
                                    labelOptions = connect_labelOptions
                                      (length (selectedAddresses c)) activeAccountName,
                                    hasNoTimeout = False,
                                    toast_accountAddress = Some newActiveAddress,
                                    toast_accountAvatarType = Some (accountAvatarType ctx),
                                    networkImageSource = None\<rparr>]
                           else [])
                          @ [TrackEvent ADD_ACCOUNT_DAPP_PERMISSIONS
                               [(''number_of_accounts'', PNum (accountsLength ctx)),
                                (''number_of_accounts_connected'',
                                 PNum (length (selectedAddresses c))),
                                (''number_of_networks'', PNum (nonTestnetNetworks ctx))]]))\<rparr>)"
  by (simp add: handleConnect_def handleConnect_body_def try_catch_finally_def ok_def Let_def
      showToast_def trackEvent_def Logger_error_def emit_def setIsLoading_def
      split: sum.splits)

text \<open>
  C10, as the claim is worded: handling Confirm always dismisses the sheet. \<open>hideSheet\<close>
  reaches the sheet through optional chaining; in a component that is not rendered as a
  bottom sheet the reference is null, and a Confirm whose persisting throws makes the
  persisting call and the log call and no call that closes anything.
\<close>

theorem C10_detached_confirm_counterexample:
  "new_effects (mount sample_params)
     (snd (handleUserActions detached_ctx USER_INTENT_Confirm (mount sample_params)))
     = [AddPermittedAccounts ''dapp.example'' [],
        LoggerError (Error ''no accounts'') ''Error while trying to connect to a dApp.'']"
  by (simp add: handleConnect_exact seq_def ok_def hideSheet_def new_effects_def
      detached_ctx_def sample_ctx_def mount_def)

text \<open>
  C10, amended: handling the Confirm intent always goes on to \<open>hideSheet\<close>, regardless of
  whether persisting the selected addresses succeeds, and \<open>hideSheet\<close> closes the sheet
  whenever the sheet reference is attached (closing is then the last call of the
  branch). A failure inside the connect handler, of the persisting call or of the
  account-name lookup after it, is caught and logged with its context string, the
  loading flag is cleared, and nothing else is reported: the calls of the branch are
  exactly the persisting call, then either the log call or the toast (through an
  attached toast reference) and the analytics event, then the close call.
\<close>

theorem C10_confirm_always_dismisses:
  "fst (handleConnect ctx c) = Inr ()
   \<and> isLoading (snd (handleConnect ctx c)) = False
   \<and> handleUserActions ctx USER_INTENT_Confirm c
       = (Inr (),
          c\<lparr>isLoading := False,
            effects := effects c
              @ AddPermittedAccounts (hostname ctx) (selectedAddresses c)
                # (case addPermittedAccounts ctx (hostname ctx) (selectedAddresses c) of
                     Inl e \<Rightarrow> [LoggerError e ''Error while trying to connect to a dApp.'']
                   | Inr newActiveAddress \<Rightarrow>
                       (case getAccountNameWithENS ctx newActiveAddress (accounts ctx) of
                          Inl e \<Rightarrow> [LoggerError e ''Error while trying to connect to a dApp.'']
                        | Inr activeAccountName \<Rightarrow>
                            (if toastRef_current ctx
                             then [ShowToast
                                     \<lparr>variant = ToastVariants_Account,
                                      labelOptions = connect_labelOptions
                                        (length (selectedAddresses c)) activeAccountName,
                                      hasNoTimeout = False,
                                      toast_accountAddress = Some newActiveAddress,
                                      toast_accountAvatarType = Some (accountAvatarType ctx),
                                      networkImageSource = None\<rparr>]
                             else [])
                            @ [TrackEvent ADD_ACCOUNT_DAPP_PERMISSIONS
                                 [(''number_of_accounts'', PNum (accountsLength ctx)),
                                  (''number_of_accounts_connected'',
                                   PNum (length (selectedAddresses c))),
                                  (''number_of_networks'', PNum (nonTestnetNetworks ctx))]]))
                @ (if sheetRef_current ctx
                   then [OnCloseBottomSheet (Some (switched_account_callback ctx))]
                   else [])\<rparr>)
   \<and> (sheetRef_current ctx \<longrightarrow>
        last (effects (snd (handleUserActions ctx USER_INTENT_Confirm c)))
          = OnCloseBottomSheet (Some (switched_account_callback ctx)))"
proof -
  have a: "fst (handleConnect ctx c) = Inr ()" "isLoading (snd (handleConnect ctx c)) = False"
    by (simp_all add: handleConnect_exact)
  have b: "handleUserActions ctx USER_INTENT_Confirm c
       = (Inr (),
          c\<lparr>isLoading := False,
            effects := effects c
              @ AddPermittedAccounts (hostname ctx) (selectedAddresses c)
                # (case addPermittedAccounts ctx (hostname ctx) (selectedAddresses c) of
                     Inl e \<Rightarrow> [LoggerError e ''Error while trying to connect to a dApp.'']
                   | Inr newActiveAddress \<Rightarrow>
                       (case getAccountNameWithENS ctx newActiveAddress (accounts ctx) of
                          Inl e \<Rightarrow> [LoggerError e ''Error while trying to connect to a dApp.'']
                        | Inr activeAccountName \<Rightarrow>
                            (if toastRef_current ctx
                             then [ShowToast
                                     \<lparr>variant = ToastVariants_Account,
                                      labelOptions = connect_labelOptions
                                        (length (selectedAddresses c)) activeAccountName,
                                      hasNoTimeout = False,
                                      toast_accountAddress = Some newActiveAddress,
                                      toast_accountAvatarType = Some (accountAvatarType ctx),
                                      networkImageSource = None\<rparr>]
                             else [])
                            @ [TrackEvent ADD_ACCOUNT_DAPP_PERMISSIONS
                                 [(''number_of_accounts'', PNum (accountsLength ctx)),
                                  (''number_of_accounts_connected'',
                                   PNum (length (selectedAddresses c))),
                                  (''number_of_networks'', PNum (nonTestnetNetworks ctx))]]))
                @ (if sheetRef_current ctx
                   then [OnCloseBottomSheet (Some (switched_account_callback ctx))]
                   else [])\<rparr>)"
    by (simp add: handleConnect_exact seq_def ok_def hideSheet_def emit_def)
  have d: "sheetRef_current ctx \<longrightarrow>
        last (effects (snd (handleUserActions ctx USER_INTENT_Confirm c)))
          = OnCloseBottomSheet (Some (switched_account_callback ctx))"
    by (simp del: handleUserActions.simps add: handleUserActions_confirm hideSheet_def emit_def)
  from a b d show ?thesis
    by (simp only: simp_thms)
qed

theorem C10_confirm_always_dismisses_witness:
  "sheetRef_current sample_ctx
   \<and> last (effects (snd (handleUserActions sample_ctx USER_INTENT_Confirm (mount sample_params))))
       = OnCloseBottomSheet (Some (switched_account_callback sample_ctx))
   \<and> isLoading (snd (handleConnect sample_ctx (mount sample_params))) = False"
proof -
  have s: "sheetRef_current sample_ctx"
    by (simp add: sample_ctx_def)
  note t = C10_confirm_always_dismisses [of sample_ctx "mount sample_params"]
  from t s
  have l: "last (effects (snd (handleUserActions sample_ctx USER_INTENT_Confirm (mount sample_params))))
       = OnCloseBottomSheet (Some (switched_account_callback sample_ctx))"
    by blast
  from t have i: "isLoading (snd (handleConnect sample_ctx (mount sample_params))) = False"
    by blast
  from s l i show ?thesis
    by blast
qed

text \<open>
  C1, as the claim is worded: every intent other than None triggers its effect, Cancel
  the dismissal. In a component that is not rendered as a bottom sheet the sheet
  reference is null and \<open>hideSheet\<close> makes no call: the Cancel intent is consumed without
  any call.
\<close>

theorem C1_detached_cancel_counterexample:
  "userIntent (setUserIntent USER_INTENT_Cancel (mount sample_params)) = USER_INTENT_Cancel
   \<and> new_effects (setUserIntent USER_INTENT_Cancel (mount sample_params))
        (snd (userIntentEffect detached_ctx (setUserIntent USER_INTENT_Cancel (mount sample_params))))
       = []"
  by (simp add: userIntentEffect_def seq_def ok_def hideSheet_def setUserIntent_def
      new_effects_def detached_ctx_def sample_ctx_def mount_def)

text \<open>
  C1, amended: when the intent is None the effect does nothing. For each other intent
  one run of the effect completes, issues exactly the commands of that intent (Confirm:
  persist the selection and close the sheet; Create and CreateMultiple: create an
  account; Cancel: close the sheet; Import and ConnectHW: navigate to the import and the
  hardware flow), where closing the sheet is a call only when the sheet reference is
  attached, and leaves the intent at None, so that a further run of the effect does
  nothing.
\<close>

theorem C1_intent_consumed_once:
  "(userIntent c = USER_INTENT_None \<longrightarrow> userIntentEffect ctx c = (Inr (), c))
   \<and> (userIntent c \<noteq> USER_INTENT_None \<longrightarrow>
        fst (userIntentEffect ctx c) = Inr ()
        \<and> userIntent (snd (userIntentEffect ctx c)) = USER_INTENT_None
        \<and> userIntentEffect ctx (snd (userIntentEffect ctx c))
            = (Inr (), snd (userIntentEffect ctx c))
        \<and> filter is_command (new_effects c (snd (userIntentEffect ctx c)))
            = (case userIntent c of
                 USER_INTENT_None \<Rightarrow> []
               | USER_INTENT_Confirm \<Rightarrow>
                   AddPermittedAccounts (hostname ctx) (selectedAddresses c)
                     # (if sheetRef_current ctx
                        then [OnCloseBottomSheet (Some (switched_account_callback ctx))] else [])
               | USER_INTENT_Create \<Rightarrow> [AddNewAccount]
               | USER_INTENT_CreateMultiple \<Rightarrow> [AddNewAccount]
               | USER_INTENT_Cancel \<Rightarrow>
                   (if sheetRef_current ctx then [OnCloseBottomSheet None] else [])
               | USER_INTENT_Import \<Rightarrow> [Navigate ''ImportPrivateKeyView'']
               | USER_INTENT_ConnectHW \<Rightarrow> [Navigate ''ConnectQRHardwareFlow'']))"
proof (cases "userIntent c")
  case USER_INTENT_None
  then show ?thesis
    by (simp add: userIntentEffect_def)
next
  case USER_INTENT_Confirm
  let ?a = "snd (handleUserActions ctx USER_INTENT_Confirm c)"
  have run: "userIntentEffect ctx c = (Inr (), setUserIntent USER_INTENT_None ?a)"
    using USER_INTENT_Confirm
    by (simp del: handleUserActions.simps
        add: userIntentEffect_def seq_def ok_def handleUserActions_confirm)
  have "new_effects c (setUserIntent USER_INTENT_None ?a) = new_effects c ?a"
    by (simp add: new_effects_def setUserIntent_def)
  with confirm_commands [of ctx c] USER_INTENT_Confirm show ?thesis
    unfolding run by (simp add: userIntentEffect_def setUserIntent_def)
next
  case USER_INTENT_Create
  then show ?thesis
    by (simp add: userIntentEffect_def seq_def ok_def handleCreateAccount_begin_def
        setUserIntent_def setIsLoading_def emit_def new_effects_def)
next
  case USER_INTENT_CreateMultiple
  then show ?thesis
    by (simp add: userIntentEffect_def seq_def ok_def handleCreateAccount_begin_def
        setUserIntent_def setIsLoading_def emit_def new_effects_def)
next
  case USER_INTENT_Cancel
  then show ?thesis
    by (simp add: userIntentEffect_def seq_def ok_def hideSheet_def
        setUserIntent_def emit_def new_effects_def)
next
  case USER_INTENT_Import
  then show ?thesis
    by (simp add: userIntentEffect_def seq_def ok_def navigate_def trackEvent_def
        setUserIntent_def emit_def new_effects_def)
next
  case USER_INTENT_ConnectHW
  then show ?thesis
    by (simp add: userIntentEffect_def seq_def ok_def navigate_def trackEvent_def
        setUserIntent_def emit_def new_effects_def)
qed

theorem C1_intent_consumed_once_witness:
  "userIntent (setUserIntent USER_INTENT_Import (mount sample_params)) \<noteq> USER_INTENT_None
   \<and> userIntent (mount sample_params) = USER_INTENT_None
   \<and> userIntentEffect sample_ctx (mount sample_params) = (Inr (), mount sample_params)
   \<and> fst (userIntentEffect sample_ctx (setUserIntent USER_INTENT_Import (mount sample_params)))
       = Inr ()
   \<and> userIntent (snd (userIntentEffect sample_ctx
        (setUserIntent USER_INTENT_Import (mount sample_params)))) = USER_INTENT_None
   \<and> filter is_command (new_effects (setUserIntent USER_INTENT_Import (mount sample_params))
        (snd (userIntentEffect sample_ctx (setUserIntent USER_INTENT_Import (mount sample_params)))))
       = [Navigate ''ImportPrivateKeyView'']"
proof -
  have n: "userIntent (mount sample_params) = USER_INTENT_None"
    by (simp add: mount_def)
  have i: "userIntent (setUserIntent USER_INTENT_Import (mount sample_params)) = USER_INTENT_Import"
    by (simp add: setUserIntent_def)
  from C1_intent_consumed_once [of "mount sample_params" sample_ctx] n
  have a: "userIntentEffect sample_ctx (mount sample_params) = (Inr (), mount sample_params)"
    by blast
  from C1_intent_consumed_once
    [of "setUserIntent USER_INTENT_Import (mount sample_params)" sample_ctx] i
  have b: "fst (userIntentEffect sample_ctx (setUserIntent USER_INTENT_Import (mount sample_params)))
       = Inr ()
   \<and> userIntent (snd (userIntentEffect sample_ctx
        (setUserIntent USER_INTENT_Import (mount sample_params)))) = USER_INTENT_None
   \<and> filter is_command (new_effects (setUserIntent USER_INTENT_Import (mount sample_params))
        (snd (userIntentEffect sample_ctx (setUserIntent USER_INTENT_Import (mount sample_params)))))
       = [Navigate ''ImportPrivateKeyView'']"
    by simp
  from n i a b show ?thesis by simp
qed


section \<open>The auto dismissal\<close>

lemma autoDismissEffect_spent:
  "previousPermittedAccounts c \<noteq> None \<Longrightarrow> autoDismissEffect ctx c = c"
  by (auto simp: autoDismissEffect_def)

lemma autoDismiss_run_spent:
  "previousPermittedAccounts c \<noteq> None \<Longrightarrow> autoDismiss_run ctxs c = c"
  by (induction ctxs) (simp_all add: autoDismissEffect_spent)

lemma autoDismissEffect_waiting:
  "\<not> (permittedAccountsByHostname ctx = [] \<and> isRenderedAsBottomSheet ctx)
     \<Longrightarrow> autoDismissEffect ctx c = c"
  by (auto simp: autoDismissEffect_def)

lemma autoDismissEffect_firing:
  assumes "previousPermittedAccounts c = None"
    and "permittedAccountsByHostname ctx = []" and "isRenderedAsBottomSheet ctx"
  shows "previousPermittedAccounts (autoDismissEffect ctx c) = Some 0"
    and "effects (autoDismissEffect ctx c)
         = effects c
           @ (if sheetRef_current ctx then [OnCloseBottomSheet None] else [])
           @ (if toastRef_current ctx
              then [ShowToast (if isMutichainVersion1Enabled ctx then networkToastProps ctx
                               else plainToastProps)]
              else [])"
  using assms
  by (simp_all add: autoDismissEffect_def Let_def hideSheet_def showToast_def emit_def)

lemma autoDismiss_run_effects:
  "previousPermittedAccounts c = None \<Longrightarrow>
   effects (autoDismiss_run ctxs c)
     = effects c
       @ (case find (\<lambda>ctx. permittedAccountsByHostname ctx = [] \<and> isRenderedAsBottomSheet ctx) ctxs of
            None \<Rightarrow> []
          | Some ctx \<Rightarrow>
              (if sheetRef_current ctx then [OnCloseBottomSheet None] else [])
              @ (if toastRef_current ctx
                 then [ShowToast (if isMutichainVersion1Enabled ctx then networkToastProps ctx
                                  else plainToastProps)]
                 else []))"
proof (induction ctxs arbitrary: c)
  case Nil
  show ?case by simp
next
  case (Cons ctx ctxs)
  show ?case
  proof (cases "permittedAccountsByHostname ctx = [] \<and> isRenderedAsBottomSheet ctx")
    case True
    with Cons.prems have "previousPermittedAccounts (autoDismissEffect ctx c) \<noteq> None"
      by (simp add: autoDismissEffect_firing)
    then have "autoDismiss_run ctxs (autoDismissEffect ctx c) = autoDismissEffect ctx c"
      by (rule autoDismiss_run_spent)
    with True Cons.prems show ?thesis
      by (simp add: autoDismissEffect_firing)
  next
    case False
    then have "autoDismissEffect ctx c = c"
      by (rule autoDismissEffect_waiting)
    with False Cons.prems Cons.IH [of c] show ?thesis
      by auto
  qed
qed

text \<open>
  C2, as the claim is worded: the auto dismissal does not fire when the
  permitted-account list is already empty at mount. The reference that guards the
  effect is undefined at mount and nothing but the effect writes it, so the first run
  of the effect on an empty list, rendered as a bottom sheet, closes the sheet and shows
  the toast.
\<close>

theorem C2_fires_at_mount_counterexample:
  "permittedAccountsByHostname sample_ctx = []
   \<and> effects (autoDismiss_run [sample_ctx] (mount sample_params))
       = [OnCloseBottomSheet None, ShowToast plainToastProps]"
  by (simp add: autoDismissEffect_def Let_def hideSheet_def showToast_def emit_def
      sample_ctx_def mount_def)

text \<open>
  C2, amended: over any sequence of renders of one mounted component the auto dismissal
  fires at most once, at the first render at which the permitted-account list is empty
  while the component is rendered as a bottom sheet (the first render after mount
  included), closing the sheet and showing the disconnect toast through whichever of
  the two references is attached; it does not fire when no render has an empty list
  while rendered as a bottom sheet.
\<close>

theorem C2_auto_dismiss_fires_once:
  "effects (autoDismiss_run ctxs (mount ps))
     = (case find (\<lambda>ctx. permittedAccountsByHostname ctx = [] \<and> isRenderedAsBottomSheet ctx) ctxs of
          None \<Rightarrow> []
        | Some ctx \<Rightarrow>
            (if sheetRef_current ctx then [OnCloseBottomSheet None] else [])
            @ (if toastRef_current ctx
               then [ShowToast (if isMutichainVersion1Enabled ctx then networkToastProps ctx
                                else plainToastProps)]
               else []))
   \<and> length (filter is_close (effects (autoDismiss_run ctxs (mount ps)))) \<le> 1
   \<and> length (filter is_toast (effects (autoDismiss_run ctxs (mount ps)))) \<le> 1"
proof -
  have "previousPermittedAccounts (mount ps) = None" and "effects (mount ps) = []"
    by (simp_all add: mount_def)
  then have e: "effects (autoDismiss_run ctxs (mount ps))
     = (case find (\<lambda>ctx. permittedAccountsByHostname ctx = [] \<and> isRenderedAsBottomSheet ctx) ctxs of
          None \<Rightarrow> []
        | Some ctx \<Rightarrow>
            (if sheetRef_current ctx then [OnCloseBottomSheet None] else [])
            @ (if toastRef_current ctx
               then [ShowToast (if isMutichainVersion1Enabled ctx then networkToastProps ctx
                                else plainToastProps)]
               else []))"
    by (simp add: autoDismiss_run_effects)
  have "length (filter is_close (effects (autoDismiss_run ctxs (mount ps)))) \<le> 1"
    unfolding e by (simp split: option.splits)
  moreover have "length (filter is_toast (effects (autoDismiss_run ctxs (mount ps)))) \<le> 1"
    unfolding e by (simp split: option.splits)
  ultimately show ?thesis
    using e by blast
qed


end
